theory Spec2Isabelle
  imports Complex_Main "HOL-Library.Sublist"
begin

section \<open>Types of the helpdesk ticket store (App.tsx, TYPES and INTERFACES)\<close>

datatype TicketStatus = Open | InProgress | Waiting | Resolved | Closed

datatype TicketPriority = Low | Medium | High | Urgent

datatype TicketCategory = Technical | Billing | Account | Feature | Bug | Other

text \<open>
  Timestamps are the values of \<^verbatim>\<open>Date.now()\<close>: integers (milliseconds). An optional
  field (\<^verbatim>\<open>assignedTo?\<close>, \<^verbatim>\<open>resolvedAt?\<close>) is an \<open>option\<close>, \<open>None\<close> being
  \<^verbatim>\<open>undefined\<close>.
\<close>

record Comment =
  comment_id :: string
  comment_ticketId :: string
  comment_author :: string
  comment_content :: string
  comment_isInternal :: bool
  comment_timestamp :: int

record Ticket =
  ticket_id :: string
  ticket_title :: string
  ticket_description :: string
  ticket_category :: TicketCategory
  ticket_priority :: TicketPriority
  ticket_status :: TicketStatus
  ticket_author :: string
  ticket_assignedTo :: "string option"
  ticket_createdAt :: int
  ticket_updatedAt :: int
  ticket_resolvedAt :: "int option"
  ticket_comments :: "Comment list"

text \<open>
  The argument of \<^verbatim>\<open>createTicket\<close>:
  \<^verbatim>\<open>Omit<Ticket, 'id' | 'createdAt' | 'updatedAt' | 'comments'>\<close>.
\<close>

record TicketDraft =
  draft_title :: string
  draft_description :: string
  draft_category :: TicketCategory
  draft_priority :: TicketPriority
  draft_status :: TicketStatus
  draft_author :: string
  draft_assignedTo :: "string option"
  draft_resolvedAt :: "int option"

text \<open>
  The argument of \<^verbatim>\<open>updateTicket\<close>: \<^verbatim>\<open>Partial<Ticket>\<close>. \<open>None\<close> is a key that the
  object does not have, \<open>Some v\<close> a key that it has. For the two optional fields the key
  may be there with the value \<^verbatim>\<open>undefined\<close>, which the spread copies: \<open>Some None\<close>.
\<close>

record TicketUpdates =
  upd_id :: "string option"
  upd_title :: "string option"
  upd_description :: "string option"
  upd_category :: "TicketCategory option"
  upd_priority :: "TicketPriority option"
  upd_status :: "TicketStatus option"
  upd_author :: "string option"
  upd_assignedTo :: "string option option"
  upd_createdAt :: "int option"
  upd_updatedAt :: "int option"
  upd_resolvedAt :: "int option option"
  upd_comments :: "Comment list option"

text \<open>
  The argument of \<^verbatim>\<open>addComment\<close>: \<^verbatim>\<open>Omit<Comment, 'id' | 'ticketId' | 'timestamp'>\<close>.
\<close>

record CommentDraft =
  cdraft_author :: string
  cdraft_content :: string
  cdraft_isInternal :: bool

section \<open>JavaScript primitives used by the model\<close>

text \<open>The truth value of a \<^verbatim>\<open>number | undefined\<close>: \<^verbatim>\<open>undefined\<close> and \<^verbatim>\<open>0\<close> are falsy.\<close>

definition truthy :: "int option \<Rightarrow> bool" where
  "truthy v = (case v of None \<Rightarrow> False | Some n \<Rightarrow> n \<noteq> 0)"

text \<open>\<^verbatim>\<open>Array.prototype.findIndex\<close>; \<open>None\<close> stands for the result \<^verbatim>\<open>-1\<close>.\<close>

fun findIndex :: "('a \<Rightarrow> bool) \<Rightarrow> 'a list \<Rightarrow> nat option" where
  "findIndex p [] = None"
| "findIndex p (x # xs) =
     (if p x then Some 0 else map_option Suc (findIndex p xs))"

text \<open>A number in a template literal: its decimal digits.\<close>

definition digitChar :: "nat \<Rightarrow> char" where
  "digitChar d = char_of (48 + d)"

fun digits :: "nat \<Rightarrow> string" where
  "digits n = (if n < 10 then [digitChar n] else digits (n div 10) @ [digitChar (n mod 10)])"

declare digits.simps [simp del]

definition numberToString :: "int \<Rightarrow> string" where
  "numberToString i = (if i < 0 then ''-'' @ digits (nat (- i)) else digits (nat i))"

text \<open>
  \<^verbatim>\<open>String.prototype.toLowerCase\<close> on the letters A to Z; a \<open>char\<close> is a byte, and the
  case mapping of other scripts is left as it is.
\<close>

definition lowerChar :: "char \<Rightarrow> char" where
  "lowerChar c =
     (let n = (of_char c :: nat) in if 65 \<le> n \<and> n \<le> 90 then char_of (n + 32) else c)"

definition toLowerCase :: "string \<Rightarrow> string" where
  "toLowerCase s = map lowerChar s"

fun startsWith :: "string \<Rightarrow> string \<Rightarrow> bool" where
  "startsWith s [] = True"
| "startsWith [] (c # cs) = False"
| "startsWith (x # xs) (c # cs) = (x = c \<and> startsWith xs cs)"

text \<open>\<^verbatim>\<open>s.includes(t)\<close>: \<open>t\<close> occurs in \<open>s\<close> at some position.\<close>

fun includesStr :: "string \<Rightarrow> string \<Rightarrow> bool" where
  "includesStr [] t = startsWith [] t"
| "includesStr (x # xs) t = (startsWith (x # xs) t \<or> includesStr xs t)"

section \<open>Model layer: class TicketsModel\<close>

text \<open>
  The state of a \<^verbatim>\<open>TicketsModel\<close> is its private array \<^verbatim>\<open>tickets\<close>. Every method takes
  the array and, when it mutates, returns the new array beside its result. The values
  that \<^verbatim>\<open>Date.now()\<close> returns are arguments, one for each call in the order of
  evaluation, and so is the string \<open>rnd\<close> that
  \<^verbatim>\<open>Math.random().toString(36).substr(2, 9)\<close> yields.
\<close>

definition getAllTickets :: "Ticket list \<Rightarrow> Ticket list" where
  "getAllTickets tickets = sort_key (\<lambda>t. - ticket_updatedAt t) tickets"

definition getTicketById :: "Ticket list \<Rightarrow> string \<Rightarrow> Ticket option" where
  "getTicketById tickets tid = find (\<lambda>t. ticket_id t = tid) tickets"

definition createTicket ::
  "int \<Rightarrow> int \<Rightarrow> int \<Rightarrow> string \<Rightarrow> Ticket list \<Rightarrow> TicketDraft \<Rightarrow> Ticket \<times> Ticket list" where
  "createTicket now1 now2 now3 rnd tickets ticket =
     (let newTicket =
        \<lparr> ticket_id = ''ticket_'' @ numberToString now1 @ ''_'' @ rnd,
          ticket_title = draft_title ticket,
          ticket_description = draft_description ticket,
          ticket_category = draft_category ticket,
          ticket_priority = draft_priority ticket,
          ticket_status = draft_status ticket,
          ticket_author = draft_author ticket,
          ticket_assignedTo = draft_assignedTo ticket,
          ticket_createdAt = now2,
          ticket_updatedAt = now3,
          ticket_resolvedAt = draft_resolvedAt ticket,
          ticket_comments = [] \<rparr>
      in (newTicket, tickets @ [newTicket]))"

text \<open>The object spread \<^verbatim>\<open>{...t, ...updates}\<close>: every key of \<open>updates\<close> replaces that of \<open>t\<close>.\<close>

definition spread :: "Ticket \<Rightarrow> TicketUpdates \<Rightarrow> Ticket" where
  "spread t updates =
     \<lparr> ticket_id = (case upd_id updates of None \<Rightarrow> ticket_id t | Some v \<Rightarrow> v),
       ticket_title = (case upd_title updates of None \<Rightarrow> ticket_title t | Some v \<Rightarrow> v),
       ticket_description =
         (case upd_description updates of None \<Rightarrow> ticket_description t | Some v \<Rightarrow> v),
       ticket_category = (case upd_category updates of None \<Rightarrow> ticket_category t | Some v \<Rightarrow> v),
       ticket_priority = (case upd_priority updates of None \<Rightarrow> ticket_priority t | Some v \<Rightarrow> v),
       ticket_status = (case upd_status updates of None \<Rightarrow> ticket_status t | Some v \<Rightarrow> v),
       ticket_author = (case upd_author updates of None \<Rightarrow> ticket_author t | Some v \<Rightarrow> v),
       ticket_assignedTo =
         (case upd_assignedTo updates of None \<Rightarrow> ticket_assignedTo t | Some v \<Rightarrow> v),
       ticket_createdAt = (case upd_createdAt updates of None \<Rightarrow> ticket_createdAt t | Some v \<Rightarrow> v),
       ticket_updatedAt = (case upd_updatedAt updates of None \<Rightarrow> ticket_updatedAt t | Some v \<Rightarrow> v),
       ticket_resolvedAt =
         (case upd_resolvedAt updates of None \<Rightarrow> ticket_resolvedAt t | Some v \<Rightarrow> v),
       ticket_comments = (case upd_comments updates of None \<Rightarrow> ticket_comments t | Some v \<Rightarrow> v) \<rparr>"

definition updateTicket ::
  "int \<Rightarrow> int \<Rightarrow> Ticket list \<Rightarrow> string \<Rightarrow> TicketUpdates \<Rightarrow> Ticket option \<times> Ticket list" where
  "updateTicket now1 now2 tickets tid updates =
     (case findIndex (\<lambda>t. ticket_id t = tid) tickets of
        None \<Rightarrow> (None, tickets)
      | Some index \<Rightarrow>
          (let merged = (spread (tickets ! index) updates) \<lparr> ticket_updatedAt := now1 \<rparr>;
               stamped =
                 (if upd_status updates = Some Resolved \<and> \<not> truthy (ticket_resolvedAt merged)
                  then merged \<lparr> ticket_resolvedAt := Some now2 \<rparr>
                  else merged)
           in (Some stamped, tickets[index := stamped])))"

definition deleteTicket :: "Ticket list \<Rightarrow> string \<Rightarrow> bool \<times> Ticket list" where
  "deleteTicket tickets tid =
     (let initialLength = length tickets;
          tickets' = filter (\<lambda>t. ticket_id t \<noteq> tid) tickets
      in (length tickets' < initialLength, tickets'))"

definition searchTickets :: "Ticket list \<Rightarrow> string \<Rightarrow> Ticket list" where
  "searchTickets tickets term =
     (let lowerTerm = toLowerCase term
      in filter (\<lambda>t. includesStr (toLowerCase (ticket_title t)) lowerTerm
                    \<or> includesStr (toLowerCase (ticket_description t)) lowerTerm
                    \<or> includesStr (toLowerCase (ticket_id t)) lowerTerm) tickets)"

definition filterByCategory :: "Ticket list \<Rightarrow> TicketCategory \<Rightarrow> Ticket list" where
  "filterByCategory tickets category = filter (\<lambda>t. ticket_category t = category) tickets"

definition filterByPriority :: "Ticket list \<Rightarrow> TicketPriority \<Rightarrow> Ticket list" where
  "filterByPriority tickets priority = filter (\<lambda>t. ticket_priority t = priority) tickets"

definition filterByStatus :: "Ticket list \<Rightarrow> TicketStatus \<Rightarrow> Ticket list" where
  "filterByStatus tickets status = filter (\<lambda>t. ticket_status t = status) tickets"

text \<open>
  \<^verbatim>\<open>addComment\<close> mutates the ticket object that \<^verbatim>\<open>getTicketById\<close> found, which is the
  first element of the array with that id: the array changes at that index.
\<close>

definition addComment ::
  "int \<Rightarrow> int \<Rightarrow> int \<Rightarrow> string \<Rightarrow> Ticket list \<Rightarrow> string \<Rightarrow> CommentDraft
     \<Rightarrow> Comment option \<times> Ticket list" where
  "addComment now1 now2 now3 rnd tickets ticketId comment =
     (case getTicketById tickets ticketId of
        None \<Rightarrow> (None, tickets)
      | Some ticket \<Rightarrow>
          (let newComment =
             \<lparr> comment_id = ''comment_'' @ numberToString now1 @ ''_'' @ rnd,
               comment_ticketId = ticketId,
               comment_author = cdraft_author comment,
               comment_content = cdraft_content comment,
               comment_isInternal = cdraft_isInternal comment,
               comment_timestamp = now2 \<rparr>;
               ticket' = ticket \<lparr> ticket_comments := ticket_comments ticket @ [newComment],
                                  ticket_updatedAt := now3 \<rparr>
           in (Some newComment,
               (case findIndex (\<lambda>t. ticket_id t = ticketId) tickets of
                  None \<Rightarrow> tickets
                | Some index \<Rightarrow> tickets[index := ticket']))))"

definition getTicketComments :: "Ticket list \<Rightarrow> string \<Rightarrow> Comment list" where
  "getTicketComments tickets ticketId =
     (case getTicketById tickets ticketId of
        None \<Rightarrow> []
      | Some ticket \<Rightarrow> sort_key comment_timestamp (ticket_comments ticket))"

record PriorityCounts =
  count_low :: nat
  count_medium :: nat
  count_high :: nat
  count_urgent :: nat

record CategoryCounts =
  count_technical :: nat
  count_billing :: nat
  count_account :: nat
  count_feature :: nat
  count_bug :: nat
  count_other :: nat

text \<open>
  The result of \<^verbatim>\<open>getStatistics\<close>. The average is a quotient of two integers; the
  source computes it in double precision, the model exactly.
\<close>

record Statistics =
  stats_total :: nat
  stats_open :: nat
  stats_inProgress :: nat
  stats_waiting :: nat
  stats_resolved :: nat
  stats_closed :: nat
  stats_byPriority :: PriorityCounts
  stats_byCategory :: CategoryCounts
  stats_averageResolutionTime :: rat

definition getStatistics :: "Ticket list \<Rightarrow> Statistics" where
  "getStatistics tickets =
     (let resolvedTickets = filter (\<lambda>t. truthy (ticket_resolvedAt t)) tickets
      in \<lparr> stats_total = length tickets,
           stats_open = length (filter (\<lambda>t. ticket_status t = Open) tickets),
           stats_inProgress = length (filter (\<lambda>t. ticket_status t = InProgress) tickets),
           stats_waiting = length (filter (\<lambda>t. ticket_status t = Waiting) tickets),
           stats_resolved = length (filter (\<lambda>t. ticket_status t = Resolved) tickets),
           stats_closed = length (filter (\<lambda>t. ticket_status t = Closed) tickets),
           stats_byPriority =
             \<lparr> count_low = length (filter (\<lambda>t. ticket_priority t = Low) tickets),
               count_medium = length (filter (\<lambda>t. ticket_priority t = Medium) tickets),
               count_high = length (filter (\<lambda>t. ticket_priority t = High) tickets),
               count_urgent = length (filter (\<lambda>t. ticket_priority t = Urgent) tickets) \<rparr>,
           stats_byCategory =
             \<lparr> count_technical = length (filter (\<lambda>t. ticket_category t = Technical) tickets),
               count_billing = length (filter (\<lambda>t. ticket_category t = Billing) tickets),
               count_account = length (filter (\<lambda>t. ticket_category t = Account) tickets),
               count_feature = length (filter (\<lambda>t. ticket_category t = Feature) tickets),
               count_bug = length (filter (\<lambda>t. ticket_category t = Bug) tickets),
               count_other = length (filter (\<lambda>t. ticket_category t = Other) tickets) \<rparr>,
           stats_averageResolutionTime =
             (if length resolvedTickets > 0
              then of_int (foldl (\<lambda>sum t. sum + (the (ticket_resolvedAt t) - ticket_createdAt t))
                            0 resolvedTickets)
                   / of_nat (length resolvedTickets)
              else 0) \<rparr>)"

definition getUrgentTickets :: "Ticket list \<Rightarrow> Ticket list" where
  "getUrgentTickets tickets =
     sort_key ticket_createdAt
       (filter (\<lambda>t. ticket_priority t = Urgent
                    \<and> (ticket_status t = Open \<or> ticket_status t = InProgress)) tickets)"

text \<open>The table \<^verbatim>\<open>validTransitions\<close> of \<^verbatim>\<open>changeTicketStatus\<close>.\<close>

fun validTransitions :: "TicketStatus \<Rightarrow> TicketStatus list" where
  "validTransitions Open = [InProgress, Closed]"
| "validTransitions InProgress = [Waiting, Resolved, Closed]"
| "validTransitions Waiting = [InProgress, Closed]"
| "validTransitions Resolved = [Closed, Open]"
| "validTransitions Closed = [Open]"

definition statusOnly :: "TicketStatus \<Rightarrow> TicketUpdates" where
  "statusOnly newStatus =
     \<lparr> upd_id = None, upd_title = None, upd_description = None, upd_category = None,
       upd_priority = None, upd_status = Some newStatus, upd_author = None,
       upd_assignedTo = None, upd_createdAt = None, upd_updatedAt = None,
       upd_resolvedAt = None, upd_comments = None \<rparr>"

definition changeTicketStatus ::
  "int \<Rightarrow> int \<Rightarrow> Ticket list \<Rightarrow> string \<Rightarrow> TicketStatus \<Rightarrow> bool \<times> Ticket list" where
  "changeTicketStatus now1 now2 tickets ticketId newStatus =
     (case getTicketById tickets ticketId of
        None \<Rightarrow> (False, tickets)
      | Some ticket \<Rightarrow>
          if newStatus \<notin> set (validTransitions (ticket_status ticket))
          then (False, tickets)
          else (True, snd (updateTicket now1 now2 tickets ticketId (statusOnly newStatus))))"

section \<open>Controller layer: class TicketsController\<close>

text \<open>
  A listener is a closure \<^verbatim>\<open>() => void\<close>; the model names it by a number, its identity
  as an object. The private \<^verbatim>\<open>Set\<close> of listeners is the list of its elements in the order
  of insertion, as \<^verbatim>\<open>forEach\<close> visits them. Calling a listener is recorded at the end of
  the trace \<open>ctrl_notified\<close>; a listener does not call the controller back.
  \<^verbatim>\<open>syncToStorage\<close> writes the array to the session storage, which no method reads
  again, and is left out of the state.
\<close>

record TicketsController =
  ctrl_model :: "Ticket list"
  ctrl_listeners :: "nat list"
  ctrl_notified :: "nat list"

definition newController :: "Ticket list \<Rightarrow> TicketsController" where
  "newController model = \<lparr> ctrl_model = model, ctrl_listeners = [], ctrl_notified = [] \<rparr>"

text \<open>\<^verbatim>\<open>Set.prototype.add\<close> and \<^verbatim>\<open>Set.prototype.delete\<close>.\<close>

definition setAdd :: "nat \<Rightarrow> nat list \<Rightarrow> nat list" where
  "setAdd x xs = (if x \<in> set xs then xs else xs @ [x])"

definition setDelete :: "nat \<Rightarrow> nat list \<Rightarrow> nat list" where
  "setDelete x xs = removeAll x xs"

text \<open>
  \<^verbatim>\<open>subscribe\<close> returns the closure \<^verbatim>\<open>() => this.listeners.delete(listener)\<close>: a
  function on the state of the controller.
\<close>

definition subscribe ::
  "nat \<Rightarrow> TicketsController \<Rightarrow> (TicketsController \<Rightarrow> TicketsController) \<times> TicketsController" where
  "subscribe listener c =
     (\<lambda>c'. c' \<lparr> ctrl_listeners := setDelete listener (ctrl_listeners c') \<rparr>,
      c \<lparr> ctrl_listeners := setAdd listener (ctrl_listeners c) \<rparr>)"

definition notify :: "TicketsController \<Rightarrow> TicketsController" where
  "notify c = c \<lparr> ctrl_notified := ctrl_notified c @ ctrl_listeners c \<rparr>"

definition ctrl_createTicket ::
  "int \<Rightarrow> int \<Rightarrow> int \<Rightarrow> string \<Rightarrow> TicketDraft \<Rightarrow> TicketsController \<Rightarrow> TicketsController" where
  "ctrl_createTicket now1 now2 now3 rnd ticket c =
     notify (c \<lparr> ctrl_model := snd (createTicket now1 now2 now3 rnd (ctrl_model c) ticket) \<rparr>)"

definition ctrl_updateTicket ::
  "int \<Rightarrow> int \<Rightarrow> string \<Rightarrow> TicketUpdates \<Rightarrow> TicketsController \<Rightarrow> TicketsController" where
  "ctrl_updateTicket now1 now2 tid updates c =
     notify (c \<lparr> ctrl_model := snd (updateTicket now1 now2 (ctrl_model c) tid updates) \<rparr>)"

definition ctrl_deleteTicket :: "string \<Rightarrow> TicketsController \<Rightarrow> TicketsController" where
  "ctrl_deleteTicket tid c =
     notify (c \<lparr> ctrl_model := snd (deleteTicket (ctrl_model c) tid) \<rparr>)"

definition ctrl_changeTicketStatus ::
  "int \<Rightarrow> int \<Rightarrow> string \<Rightarrow> TicketStatus \<Rightarrow> TicketsController \<Rightarrow> bool \<times> TicketsController" where
  "ctrl_changeTicketStatus now1 now2 ticketId newStatus c =
     (let (success, tickets') = changeTicketStatus now1 now2 (ctrl_model c) ticketId newStatus;
          c' = c \<lparr> ctrl_model := tickets' \<rparr>
      in (success, if success then notify c' else c'))"

definition ctrl_addComment ::
  "int \<Rightarrow> int \<Rightarrow> int \<Rightarrow> string \<Rightarrow> string \<Rightarrow> CommentDraft \<Rightarrow> TicketsController
     \<Rightarrow> TicketsController" where
  "ctrl_addComment now1 now2 now3 rnd ticketId comment c =
     notify (c \<lparr> ctrl_model :=
                   snd (addComment now1 now2 now3 rnd (ctrl_model c) ticketId comment) \<rparr>)"

subsection \<open>Sequences of controller calls\<close>

text \<open>
  One constructor for each public method of the controller other than \<^verbatim>\<open>subscribe\<close>,
  with its arguments and the clock and random values it consumes. The read-only methods
  return a value computed from the model and leave the controller as it is.
\<close>

datatype Call =
    CreateTicket int int int string TicketDraft
  | UpdateTicket int int string TicketUpdates
  | DeleteTicket string
  | ChangeTicketStatus int int string TicketStatus
  | AddComment int int int string string CommentDraft
  | GetAllTickets
  | GetTicketById string
  | SearchTickets string
  | FilterByCategory TicketCategory
  | FilterByPriority TicketPriority
  | FilterByStatus TicketStatus
  | GetUrgentTickets
  | GetTicketComments string
  | GetStatistics

fun exec :: "Call \<Rightarrow> TicketsController \<Rightarrow> TicketsController" where
  "exec (CreateTicket now1 now2 now3 rnd ticket) c = ctrl_createTicket now1 now2 now3 rnd ticket c"
| "exec (UpdateTicket now1 now2 tid updates) c = ctrl_updateTicket now1 now2 tid updates c"
| "exec (DeleteTicket tid) c = ctrl_deleteTicket tid c"
| "exec (ChangeTicketStatus now1 now2 tid newStatus) c =
     snd (ctrl_changeTicketStatus now1 now2 tid newStatus c)"
| "exec (AddComment now1 now2 now3 rnd tid comment) c =
     ctrl_addComment now1 now2 now3 rnd tid comment c"
| "exec _ c = c"

fun run :: "Call list \<Rightarrow> TicketsController \<Rightarrow> TicketsController" where
  "run [] c = c"
| "run (x # xs) c = run xs (exec x c)"

text \<open>
  The calls after which the controller runs \<^verbatim>\<open>notify\<close>, read off the spec's scenario
  and the source: the four unguarded mutating methods always, \<^verbatim>\<open>changeTicketStatus\<close>
  when the model reports success, a query never.
\<close>

fun notifying :: "Call \<Rightarrow> TicketsController \<Rightarrow> bool" where
  "notifying (CreateTicket now1 now2 now3 rnd ticket) c = True"
| "notifying (UpdateTicket now1 now2 tid updates) c = True"
| "notifying (DeleteTicket tid) c = True"
| "notifying (ChangeTicketStatus now1 now2 tid newStatus) c =
     fst (changeTicketStatus now1 now2 (ctrl_model c) tid newStatus)"
| "notifying (AddComment now1 now2 now3 rnd tid comment) c = True"
| "notifying _ c = False"

fun expectedNotifications :: "Call list \<Rightarrow> TicketsController \<Rightarrow> nat" where
  "expectedNotifications [] c = 0"
| "expectedNotifications (x # xs) c =
     (if notifying x c then 1 else 0) + expectedNotifications xs (exec x c)"

text \<open>A run of \<^verbatim>\<open>changeTicketStatus\<close> calls on the model, each with its clock values.\<close>

fun changeStatuses :: "(int \<times> int \<times> TicketStatus) list \<Rightarrow> Ticket list \<Rightarrow> string \<Rightarrow> Ticket list" where
  "changeStatuses [] tickets tid = tickets"
| "changeStatuses ((now1, now2, newStatus) # rest) tickets tid =
     changeStatuses rest (snd (changeTicketStatus now1 now2 tickets tid newStatus)) tid"

section \<open>Example data\<close>

definition exampleTicket :: Ticket where
  "exampleTicket =
     \<lparr> ticket_id = ''ticket_1'', ticket_title = ''Login fails'',
       ticket_description = ''Cannot log in'', ticket_category = Technical,
       ticket_priority = High, ticket_status = InProgress, ticket_author = ''Joao'',
       ticket_assignedTo = None, ticket_createdAt = 100, ticket_updatedAt = 100,
       ticket_resolvedAt = None, ticket_comments = [] \<rparr>"

definition exampleDraft :: TicketDraft where
  "exampleDraft =
     \<lparr> draft_title = ''Double charge'', draft_description = ''Charged twice'',
       draft_category = Billing, draft_priority = Urgent, draft_status = Open,
       draft_author = ''Maria'', draft_assignedTo = None, draft_resolvedAt = None \<rparr>"

definition exampleComment :: CommentDraft where
  "exampleComment =
     \<lparr> cdraft_author = ''Support'', cdraft_content = ''Looking into it'',
       cdraft_isInternal = False \<rparr>"

definition exampleCalls :: "Call list" where
  "exampleCalls =
     [CreateTicket 200 201 202 ''k3x'' exampleDraft,
      ChangeTicketStatus 300 301 ''ticket_1'' Open,
      GetAllTickets,
      ChangeTicketStatus 400 401 ''ticket_1'' Waiting,
      DeleteTicket ''ticket_2'',
      GetStatistics]"

section \<open>Finding a ticket by its id\<close>

text \<open>
  \<^verbatim>\<open>find\<close> and \<^verbatim>\<open>findIndex\<close> stop at the same element, the first one with the id, so
  the ticket that \<^verbatim>\<open>getTicketById\<close> returns is the one that \<^verbatim>\<open>updateTicket\<close> replaces.
\<close>

lemma findIndex_None: "findIndex p xs = None \<longleftrightarrow> find p xs = None"
  by (induction xs) auto

lemma findIndex_Some:
  "findIndex p xs = Some i \<Longrightarrow>
     i < length xs \<and> p (xs ! i) \<and> find p xs = Some (xs ! i) \<and> (\<forall>j<i. \<not> p (xs ! j))"
proof (induction xs arbitrary: i)
  case Nil
  then show ?case by simp
next
  case (Cons x xs)
  show ?case
  proof (cases "p x")
    case True
    with Cons.prems show ?thesis by simp
  next
    case False
    with Cons.prems obtain k where k: "findIndex p xs = Some k" and i: "i = Suc k"
      by auto
    from Cons.IH [OF k] False i show ?thesis
      by (auto simp: less_Suc_eq_0_disj)
  qed
qed

lemma find_Some_findIndex:
  "find p xs = Some x \<Longrightarrow> \<exists>i. findIndex p xs = Some i \<and> xs ! i = x"
proof -
  assume a: "find p xs = Some x"
  then have "findIndex p xs \<noteq> None" by (simp add: findIndex_None)
  then obtain i where i: "findIndex p xs = Some i" by auto
  from findIndex_Some [OF i] a have "xs ! i = x" by simp
  with i show ?thesis by blast
qed

lemma find_list_update_first:
  "findIndex p xs = Some i \<Longrightarrow> p y \<Longrightarrow> find p (xs[i := y]) = Some y"
proof (induction xs arbitrary: i)
  case Nil
  then show ?case by simp
next
  case (Cons x xs)
  show ?case
  proof (cases "p x")
    case True
    with Cons.prems show ?thesis by simp
  next
    case False
    with Cons.prems obtain k where k: "findIndex p xs = Some k" and i: "i = Suc k"
      by auto
    from Cons.IH [OF k Cons.prems(2)] False i show ?thesis by simp
  qed
qed

section \<open>The guarded status change\<close>

lemma updateTicket_statusOnly:
  assumes "getTicketById tickets tid = Some t"
  shows "\<exists>i. findIndex (\<lambda>t. ticket_id t = tid) tickets = Some i \<and> tickets ! i = t \<and>
           snd (updateTicket now1 now2 tickets tid (statusOnly s)) =
             tickets[i := (if s = Resolved \<and> \<not> truthy (ticket_resolvedAt t)
                           then t \<lparr> ticket_status := s, ticket_updatedAt := now1,
                                    ticket_resolvedAt := Some now2 \<rparr>
                           else t \<lparr> ticket_status := s, ticket_updatedAt := now1 \<rparr>)]"
proof -
  from assms obtain i where i: "findIndex (\<lambda>t. ticket_id t = tid) tickets = Some i"
    and t: "tickets ! i = t"
    unfolding getTicketById_def by (blast dest: find_Some_findIndex)
  have sp: "spread t (statusOnly s) = t \<lparr> ticket_status := s \<rparr>"
    by (simp add: spread_def statusOnly_def)
  have st: "upd_status (statusOnly s) = Some s"
    by (simp add: statusOnly_def)
  show ?thesis
    using i t by (simp add: updateTicket_def sp st Let_def)
qed

lemma changeTicketStatus_result:
  assumes "getTicketById tickets tid = Some t"
  shows "\<exists>t'. getTicketById (snd (changeTicketStatus now1 now2 tickets tid s)) tid = Some t' \<and>
           ticket_id t' = tid \<and>
           ticket_status t' =
             (if fst (changeTicketStatus now1 now2 tickets tid s) then s else ticket_status t) \<and>
           ticket_resolvedAt t' =
             (if fst (changeTicketStatus now1 now2 tickets tid s) \<and> s = Resolved
                 \<and> \<not> truthy (ticket_resolvedAt t)
              then Some now2 else ticket_resolvedAt t)"
proof (cases "s \<in> set (validTransitions (ticket_status t))")
  case False
  have "ticket_id t = tid"
    using assms unfolding getTicketById_def by (auto simp: find_Some_iff)
  with False assms show ?thesis
    by (simp add: changeTicketStatus_def)
next
  case True
  have tid: "ticket_id t = tid"
    using assms unfolding getTicketById_def by (auto simp: find_Some_iff)
  from updateTicket_statusOnly [OF assms, of now1 now2 s]
  obtain i where i: "findIndex (\<lambda>t. ticket_id t = tid) tickets = Some i"
    and u: "snd (updateTicket now1 now2 tickets tid (statusOnly s)) =
             tickets[i := (if s = Resolved \<and> \<not> truthy (ticket_resolvedAt t)
                           then t \<lparr> ticket_status := s, ticket_updatedAt := now1,
                                    ticket_resolvedAt := Some now2 \<rparr>
                           else t \<lparr> ticket_status := s, ticket_updatedAt := now1 \<rparr>)]"
    by blast
  have c: "changeTicketStatus now1 now2 tickets tid s =
             (True, snd (updateTicket now1 now2 tickets tid (statusOnly s)))"
    using True assms by (simp add: changeTicketStatus_def)
  show ?thesis
    unfolding c u getTicketById_def
    using find_list_update_first [OF i, of "(if s = Resolved \<and> \<not> truthy (ticket_resolvedAt t)
                           then t \<lparr> ticket_status := s, ticket_updatedAt := now1,
                                    ticket_resolvedAt := Some now2 \<rparr>
                           else t \<lparr> ticket_status := s, ticket_updatedAt := now1 \<rparr>)"] tid
    by (auto split: if_splits)
qed

text \<open>
  Claim C1. For a ticket that is in the store, \<^verbatim>\<open>changeTicketStatus\<close> returns true
  exactly when the pair of the ticket's status and the requested status is one of the ten
  edges of the transition table. When it returns false the array of tickets is the one it
  was given, so the ticket keeps its status and its \<^verbatim>\<open>updatedAt\<close>; when it returns true
  the ticket has the requested status.
\<close>

theorem changeTicketStatus_iff_edge:
  assumes "getTicketById tickets tid = Some t"
  shows "(fst (changeTicketStatus now1 now2 tickets tid s) \<longleftrightarrow>
            (ticket_status t, s) \<in>
              {(Open, InProgress), (Open, Closed),
               (InProgress, Waiting), (InProgress, Resolved), (InProgress, Closed),
               (Waiting, InProgress), (Waiting, Closed),
               (Resolved, Closed), (Resolved, Open),
               (Closed, Open)})
       \<and> (\<not> fst (changeTicketStatus now1 now2 tickets tid s) \<longrightarrow>
            snd (changeTicketStatus now1 now2 tickets tid s) = tickets)
       \<and> (fst (changeTicketStatus now1 now2 tickets tid s) \<longrightarrow>
            (\<exists>t'. getTicketById (snd (changeTicketStatus now1 now2 tickets tid s)) tid = Some t'
                  \<and> ticket_status t' = s))"
proof -
  have a: "fst (changeTicketStatus now1 now2 tickets tid s) \<longleftrightarrow>
             s \<in> set (validTransitions (ticket_status t))"
    using assms by (simp add: changeTicketStatus_def)
  have b: "s \<in> set (validTransitions (ticket_status t)) \<longleftrightarrow>
            (ticket_status t, s) \<in>
              {(Open, InProgress), (Open, Closed),
               (InProgress, Waiting), (InProgress, Resolved), (InProgress, Closed),
               (Waiting, InProgress), (Waiting, Closed),
               (Resolved, Closed), (Resolved, Open),
               (Closed, Open)}"
    by (cases "ticket_status t"; cases s; simp)
  have c: "\<not> fst (changeTicketStatus now1 now2 tickets tid s) \<longrightarrow>
            snd (changeTicketStatus now1 now2 tickets tid s) = tickets"
    using assms by (simp add: changeTicketStatus_def)
  from changeTicketStatus_result [OF assms, of now1 now2 s]
  have d: "fst (changeTicketStatus now1 now2 tickets tid s) \<longrightarrow>
            (\<exists>t'. getTicketById (snd (changeTicketStatus now1 now2 tickets tid s)) tid = Some t'
                  \<and> ticket_status t' = s)"
    by auto
  from a b c d show ?thesis by blast
qed

text \<open>
  The example ticket is in progress: the change to resolved succeeds, the change to open is
  refused and leaves the store as it was.
\<close>

theorem changeTicketStatus_iff_edge_witness:
  "getTicketById [exampleTicket] ''ticket_1'' = Some exampleTicket
   \<and> fst (changeTicketStatus 200 201 [exampleTicket] ''ticket_1'' Resolved)
   \<and> \<not> fst (changeTicketStatus 200 201 [exampleTicket] ''ticket_1'' Open)
   \<and> snd (changeTicketStatus 200 201 [exampleTicket] ''ticket_1'' Open) = [exampleTicket]"
proof -
  have h: "getTicketById [exampleTicket] ''ticket_1'' = Some exampleTicket"
    by (simp add: getTicketById_def exampleTicket_def)
  have s: "ticket_status exampleTicket = InProgress"
    by (simp add: exampleTicket_def)
  from changeTicketStatus_iff_edge [OF h, of 200 201 Resolved]
       changeTicketStatus_iff_edge [OF h, of 200 201 Open] h s
  show ?thesis by simp
qed

section \<open>The resolution stamp\<close>

lemma changeStatuses_present:
  "getTicketById tickets tid = Some t \<Longrightarrow>
     \<exists>t'. getTicketById (changeStatuses calls tickets tid) tid = Some t'"
proof (induction calls arbitrary: tickets t)
  case Nil
  then show ?case by simp
next
  case (Cons call calls)
  obtain now1 now2 s where call: "call = (now1, now2, s)"
    by (cases call) auto
  from changeTicketStatus_result [OF Cons.prems, of now1 now2 s]
  obtain t1 where "getTicketById (snd (changeTicketStatus now1 now2 tickets tid s)) tid = Some t1"
    by blast
  from Cons.IH [OF this] call show ?case by simp
qed

lemma changeStatuses_keeps_resolvedAt:
  "getTicketById tickets tid = Some t \<Longrightarrow> truthy (ticket_resolvedAt t) \<Longrightarrow>
     \<exists>t'. getTicketById (changeStatuses calls tickets tid) tid = Some t'
          \<and> ticket_resolvedAt t' = ticket_resolvedAt t"
proof (induction calls arbitrary: tickets t)
  case Nil
  then show ?case by simp
next
  case (Cons call calls)
  obtain now1 now2 s where call: "call = (now1, now2, s)"
    by (cases call) auto
  from changeTicketStatus_result [OF Cons.prems(1), of now1 now2 s] Cons.prems(2)
  obtain t1 where t1: "getTicketById (snd (changeTicketStatus now1 now2 tickets tid s)) tid = Some t1"
    and r1: "ticket_resolvedAt t1 = ticket_resolvedAt t"
    by auto
  from Cons.prems(2) r1 have "truthy (ticket_resolvedAt t1)" by simp
  from Cons.IH [OF t1 this] r1 call show ?case by simp
qed

lemma updateTicket_result:
  assumes "getTicketById tickets tid = Some t"
  shows "\<exists>i t'. updateTicket now1 now2 tickets tid updates = (Some t', tickets[i := t'])
           \<and> i < length tickets \<and> tickets ! i = t
           \<and> (\<forall>j<i. ticket_id (tickets ! j) \<noteq> tid)
           \<and> ticket_status t' =
               (case upd_status updates of None \<Rightarrow> ticket_status t | Some v \<Rightarrow> v)
           \<and> ticket_resolvedAt t' =
               (if upd_status updates = Some Resolved
                   \<and> \<not> truthy (case upd_resolvedAt updates of
                                  None \<Rightarrow> ticket_resolvedAt t | Some v \<Rightarrow> v)
                then Some now2
                else (case upd_resolvedAt updates of
                        None \<Rightarrow> ticket_resolvedAt t | Some v \<Rightarrow> v))"
proof -
  from assms obtain i where i: "findIndex (\<lambda>t. ticket_id t = tid) tickets = Some i"
    and ti: "tickets ! i = t"
    unfolding getTicketById_def by (blast dest: find_Some_findIndex)
  from findIndex_Some [OF i] have il: "i < length tickets"
    and first: "\<forall>j<i. ticket_id (tickets ! j) \<noteq> tid"
    by auto
  define t' where "t' = the (fst (updateTicket now1 now2 tickets tid updates))"
  have r: "updateTicket now1 now2 tickets tid updates = (Some t', tickets[i := t'])"
    unfolding t'_def using i by (simp add: updateTicket_def Let_def)
  have s: "ticket_status t' =
               (case upd_status updates of None \<Rightarrow> ticket_status t | Some v \<Rightarrow> v)"
    unfolding t'_def using i ti by (simp add: updateTicket_def spread_def Let_def)
  have ra: "ticket_resolvedAt t' =
               (if upd_status updates = Some Resolved
                   \<and> \<not> truthy (case upd_resolvedAt updates of
                                  None \<Rightarrow> ticket_resolvedAt t | Some v \<Rightarrow> v)
                then Some now2
                else (case upd_resolvedAt updates of
                        None \<Rightarrow> ticket_resolvedAt t | Some v \<Rightarrow> v))"
    unfolding t'_def using i ti by (simp add: updateTicket_def spread_def Let_def)
  from r il ti first s ra show ?thesis by blast
qed

text \<open>
  Claim C3. \<^verbatim>\<open>updateTicket\<close> on a ticket that is in the store replaces the first
  ticket with the id by the merged one. The merged status is the status of the update
  when it has one, and \<^verbatim>\<open>resolvedAt\<close> is stamped with the clock value exactly when the
  update sets the status to resolved and the merged ticket has no stamp; otherwise
  \<^verbatim>\<open>resolvedAt\<close> is the merged value. So a stamp is written only by a mutation that
  makes the status resolved, and only while there is none. \<^verbatim>\<open>changeTicketStatus\<close>
  succeeds exactly on an edge of the table; the ticket then has the requested status, and
  the stamp is written exactly when that status is resolved and the ticket had no stamp.
  A refused change alters neither. Once the stamp is set, in the sense in which the source
  tests it (\<^verbatim>\<open>!resolvedAt\<close> is false: a number other than 0), any further sequence of
  \<^verbatim>\<open>changeTicketStatus\<close> calls, succeeding or not and resolving again or not, leaves
  the ticket in the store with the same stamp.
\<close>

theorem resolvedAt_stamped_once:
  assumes "getTicketById tickets tid = Some t"
  shows "(\<exists>i t'. updateTicket now1 now2 tickets tid updates = (Some t', tickets[i := t'])
            \<and> i < length tickets \<and> tickets ! i = t
            \<and> (\<forall>j<i. ticket_id (tickets ! j) \<noteq> tid)
            \<and> ticket_status t' =
                (case upd_status updates of None \<Rightarrow> ticket_status t | Some v \<Rightarrow> v)
            \<and> ticket_resolvedAt t' =
                (if upd_status updates = Some Resolved
                    \<and> \<not> truthy (case upd_resolvedAt updates of
                                   None \<Rightarrow> ticket_resolvedAt t | Some v \<Rightarrow> v)
                 then Some now2
                 else (case upd_resolvedAt updates of
                         None \<Rightarrow> ticket_resolvedAt t | Some v \<Rightarrow> v)))
       \<and> (\<exists>t1 t2.
             getTicketById (snd (changeTicketStatus now1 now2 tickets tid s)) tid = Some t1
           \<and> fst (changeTicketStatus now1 now2 tickets tid s)
               = (s \<in> set (validTransitions (ticket_status t)))
           \<and> ticket_status t1 =
               (if s \<in> set (validTransitions (ticket_status t)) then s else ticket_status t)
           \<and> ticket_resolvedAt t1 =
               (if s \<in> set (validTransitions (ticket_status t)) \<and> s = Resolved
                   \<and> \<not> truthy (ticket_resolvedAt t)
                then Some now2 else ticket_resolvedAt t)
           \<and> getTicketById
                 (changeStatuses calls (snd (changeTicketStatus now1 now2 tickets tid s)) tid) tid
               = Some t2
           \<and> (truthy (ticket_resolvedAt t1) \<longrightarrow> ticket_resolvedAt t2 = ticket_resolvedAt t1))"
proof (rule conjI)
  show "\<exists>i t'. updateTicket now1 now2 tickets tid updates = (Some t', tickets[i := t'])
            \<and> i < length tickets \<and> tickets ! i = t
            \<and> (\<forall>j<i. ticket_id (tickets ! j) \<noteq> tid)
            \<and> ticket_status t' =
                (case upd_status updates of None \<Rightarrow> ticket_status t | Some v \<Rightarrow> v)
            \<and> ticket_resolvedAt t' =
                (if upd_status updates = Some Resolved
                    \<and> \<not> truthy (case upd_resolvedAt updates of
                                   None \<Rightarrow> ticket_resolvedAt t | Some v \<Rightarrow> v)
                 then Some now2
                 else (case upd_resolvedAt updates of
                         None \<Rightarrow> ticket_resolvedAt t | Some v \<Rightarrow> v))"
    using assms by (rule updateTicket_result)
next
  have ok: "fst (changeTicketStatus now1 now2 tickets tid s)
              = (s \<in> set (validTransitions (ticket_status t)))"
    using assms by (simp add: changeTicketStatus_def)
  from changeTicketStatus_result [OF assms, of now1 now2 s]
  obtain t1 where t1: "getTicketById (snd (changeTicketStatus now1 now2 tickets tid s)) tid = Some t1"
    and s1: "ticket_status t1 =
               (if s \<in> set (validTransitions (ticket_status t)) then s else ticket_status t)"
    and r1: "ticket_resolvedAt t1 =
             (if s \<in> set (validTransitions (ticket_status t)) \<and> s = Resolved
                 \<and> \<not> truthy (ticket_resolvedAt t)
              then Some now2 else ticket_resolvedAt t)"
    unfolding ok by blast
  have "\<exists>t2. getTicketById
                 (changeStatuses calls (snd (changeTicketStatus now1 now2 tickets tid s)) tid) tid
               = Some t2
           \<and> (truthy (ticket_resolvedAt t1) \<longrightarrow> ticket_resolvedAt t2 = ticket_resolvedAt t1)"
  proof (cases "truthy (ticket_resolvedAt t1)")
    case True
    from changeStatuses_keeps_resolvedAt [OF t1 True, of calls] show ?thesis
      by blast
  next
    case False
    from changeStatuses_present [OF t1, of calls] False show ?thesis
      by blast
  qed
  with t1 ok s1 r1
  show "\<exists>t1 t2.
             getTicketById (snd (changeTicketStatus now1 now2 tickets tid s)) tid = Some t1
           \<and> fst (changeTicketStatus now1 now2 tickets tid s)
               = (s \<in> set (validTransitions (ticket_status t)))
           \<and> ticket_status t1 =
               (if s \<in> set (validTransitions (ticket_status t)) then s else ticket_status t)
           \<and> ticket_resolvedAt t1 =
               (if s \<in> set (validTransitions (ticket_status t)) \<and> s = Resolved
                   \<and> \<not> truthy (ticket_resolvedAt t)
                then Some now2 else ticket_resolvedAt t)
           \<and> getTicketById
                 (changeStatuses calls (snd (changeTicketStatus now1 now2 tickets tid s)) tid) tid
               = Some t2
           \<and> (truthy (ticket_resolvedAt t1) \<longrightarrow> ticket_resolvedAt t2 = ticket_resolvedAt t1)"
    by blast
qed

text \<open>
  The example ticket is in progress and has no stamp. A direct update to resolved at clock
  value 201 stamps it, and so does the guarded change. After the guarded change the ticket
  is closed, reopened, taken in progress and resolved again at 601: it is resolved, it was
  last updated at 600, and the stamp is still 201.
\<close>

theorem resolvedAt_stamped_once_witness:
  "getTicketById [exampleTicket] ''ticket_1'' = Some exampleTicket
   \<and> (\<exists>t'. fst (updateTicket 200 201 [exampleTicket] ''ticket_1'' (statusOnly Resolved)) = Some t'
          \<and> ticket_status t' = Resolved \<and> ticket_resolvedAt t' = Some 201)
   \<and> (\<exists>t1 t2.
        getTicketById (snd (changeTicketStatus 200 201 [exampleTicket] ''ticket_1'' Resolved))
          ''ticket_1'' = Some t1
      \<and> ticket_status t1 = Resolved
      \<and> ticket_resolvedAt t1 = Some 201
      \<and> getTicketById
          (changeStatuses [(300, 301, Closed), (400, 401, Open), (500, 501, InProgress),
                           (600, 601, Resolved)]
             (snd (changeTicketStatus 200 201 [exampleTicket] ''ticket_1'' Resolved))
             ''ticket_1'') ''ticket_1'' = Some t2
      \<and> ticket_status t2 = Resolved
      \<and> ticket_updatedAt t2 = 600
      \<and> ticket_resolvedAt t2 = Some 201)"
proof -
  have h: "getTicketById [exampleTicket] ''ticket_1'' = Some exampleTicket"
    by (simp add: getTicketById_def exampleTicket_def)
  have v: "Resolved \<in> set (validTransitions (ticket_status exampleTicket))"
    by (simp add: exampleTicket_def)
  have r: "\<not> truthy (ticket_resolvedAt exampleTicket)"
    by (simp add: truthy_def exampleTicket_def)
  have u: "upd_status (statusOnly Resolved) = Some Resolved"
          "upd_resolvedAt (statusOnly Resolved) = None"
    by (simp_all add: statusOnly_def)
  have e: "changeStatuses [(300, 301, Closed), (400, 401, Open), (500, 501, InProgress),
                           (600, 601, Resolved)]
             (snd (changeTicketStatus 200 201 [exampleTicket] ''ticket_1'' Resolved))
             ''ticket_1''
           = [exampleTicket \<lparr> ticket_status := Resolved, ticket_updatedAt := 600,
                              ticket_resolvedAt := Some 201 \<rparr>]"
    by (simp add: changeTicketStatus_def updateTicket_def getTicketById_def spread_def
          statusOnly_def truthy_def exampleTicket_def Let_def)
  note inst = resolvedAt_stamped_once [OF h, of 200 201 "statusOnly Resolved" Resolved
      "[(300, 301, Closed), (400, 401, Open), (500, 501, InProgress), (600, 601, Resolved)]"]
  have A: "\<exists>t'. fst (updateTicket 200 201 [exampleTicket] ''ticket_1'' (statusOnly Resolved)) = Some t'
          \<and> ticket_status t' = Resolved \<and> ticket_resolvedAt t' = Some 201"
  proof -
    from inst obtain i t' where
      "updateTicket 200 201 [exampleTicket] ''ticket_1'' (statusOnly Resolved)
         = (Some t', [exampleTicket][i := t'])"
      and "ticket_status t' =
             (case upd_status (statusOnly Resolved) of
                None \<Rightarrow> ticket_status exampleTicket | Some v \<Rightarrow> v)"
      and "ticket_resolvedAt t' =
             (if upd_status (statusOnly Resolved) = Some Resolved
                 \<and> \<not> truthy (case upd_resolvedAt (statusOnly Resolved) of
                                None \<Rightarrow> ticket_resolvedAt exampleTicket | Some v \<Rightarrow> v)
              then Some 201
              else (case upd_resolvedAt (statusOnly Resolved) of
                      None \<Rightarrow> ticket_resolvedAt exampleTicket | Some v \<Rightarrow> v))"
      by blast
    with r u show ?thesis by simp
  qed
  from inst obtain t1 t2 where
    a: "getTicketById (snd (changeTicketStatus 200 201 [exampleTicket] ''ticket_1'' Resolved))
          ''ticket_1'' = Some t1"
    and b0: "ticket_status t1 =
               (if Resolved \<in> set (validTransitions (ticket_status exampleTicket))
                then Resolved else ticket_status exampleTicket)"
    and b1: "ticket_resolvedAt t1 =
               (if Resolved \<in> set (validTransitions (ticket_status exampleTicket))
                   \<and> Resolved = Resolved \<and> \<not> truthy (ticket_resolvedAt exampleTicket)
                then Some 201 else ticket_resolvedAt exampleTicket)"
    and c: "getTicketById
          (changeStatuses [(300, 301, Closed), (400, 401, Open), (500, 501, InProgress),
                           (600, 601, Resolved)]
             (snd (changeTicketStatus 200 201 [exampleTicket] ''ticket_1'' Resolved))
             ''ticket_1'') ''ticket_1'' = Some t2"
    and d: "truthy (ticket_resolvedAt t1) \<longrightarrow> ticket_resolvedAt t2 = ticket_resolvedAt t1"
    by blast
  from b0 v have s1: "ticket_status t1 = Resolved" by simp
  from b1 v r have b: "ticket_resolvedAt t1 = Some 201" by simp
  from b have "truthy (ticket_resolvedAt t1)" by (simp add: truthy_def)
  with d b have r2: "ticket_resolvedAt t2 = Some 201" by simp
  from c have t2: "t2 = exampleTicket \<lparr> ticket_status := Resolved, ticket_updatedAt := 600,
                              ticket_resolvedAt := Some 201 \<rparr>"
    unfolding e by (simp add: getTicketById_def exampleTicket_def)
  have s2: "ticket_status t2 = Resolved" and u2: "ticket_updatedAt t2 = 600"
    by (simp_all add: t2)
  from h A a s1 b c s2 u2 r2 show ?thesis by blast
qed

section \<open>A status change for an id that is not in the store\<close>

text \<open>
  Claim C8. When no ticket of the store has the id, \<^verbatim>\<open>changeTicketStatus\<close> returns
  false whatever the requested status, and the array of tickets is unchanged; the
  controller returns false too and is left exactly as it was, so no listener is called.
\<close>

theorem changeTicketStatus_absent:
  assumes "getTicketById (ctrl_model c) tid = None"
  shows "changeTicketStatus now1 now2 (ctrl_model c) tid s = (False, ctrl_model c)
       \<and> ctrl_changeTicketStatus now1 now2 tid s c = (False, c)"
  using assms by (simp add: changeTicketStatus_def ctrl_changeTicketStatus_def)

theorem changeTicketStatus_absent_witness:
  "getTicketById (ctrl_model (snd (subscribe 0 (newController [exampleTicket])))) ''ticket_2'' = None
   \<and> changeTicketStatus 200 201 [exampleTicket] ''ticket_2'' Closed = (False, [exampleTicket])
   \<and> ctrl_notified (snd (ctrl_changeTicketStatus 200 201 ''ticket_2'' Closed
                       (snd (subscribe 0 (newController [exampleTicket]))))) = []"
proof -
  have h: "getTicketById (ctrl_model (snd (subscribe 0 (newController [exampleTicket]))))
             ''ticket_2'' = None"
    by (simp add: getTicketById_def exampleTicket_def subscribe_def newController_def)
  have m: "ctrl_model (snd (subscribe 0 (newController [exampleTicket]))) = [exampleTicket]"
    by (simp add: subscribe_def newController_def)
  have n: "ctrl_notified (snd (subscribe 0 (newController [exampleTicket]))) = []"
    by (simp add: subscribe_def newController_def)
  from changeTicketStatus_absent [OF h, of 200 201 Closed] h m n show ?thesis
    by simp
qed

section \<open>Searching\<close>

lemma includesStr_empty: "includesStr s []"
  by (cases s) simp_all

text \<open>
  Claim C9. Searching for the empty string returns the whole collection, in the order of
  the array: the lowered term is empty and the empty string occurs in every title.
\<close>

theorem searchTickets_empty_term: "searchTickets tickets [] = tickets"
  by (simp add: searchTickets_def toLowerCase_def includesStr_empty)

theorem searchTickets_empty_term_witness:
  "searchTickets [exampleTicket, exampleTicket \<lparr> ticket_title := [] \<rparr>] []
     = [exampleTicket, exampleTicket \<lparr> ticket_title := [] \<rparr>]"
  by (rule searchTickets_empty_term)

section \<open>Deleting a ticket\<close>

text \<open>
  Claim C10. After \<^verbatim>\<open>deleteTicket\<close> the tickets whose id is not the deleted one are the
  same records (all fields, comments included) in the same order as before: the sequence
  of those tickets is unchanged, the new array is a subsequence of the old one, and each
  such ticket occurs as often as it did.
\<close>

theorem deleteTicket_frame:
  "filter (\<lambda>t. ticket_id t \<noteq> tid) (snd (deleteTicket tickets tid))
     = filter (\<lambda>t. ticket_id t \<noteq> tid) tickets
   \<and> subseq (snd (deleteTicket tickets tid)) tickets
   \<and> (\<forall>t. ticket_id t \<noteq> tid \<longrightarrow>
          count_list (snd (deleteTicket tickets tid)) t = count_list tickets t)"
proof -
  have a: "snd (deleteTicket tickets tid) = filter (\<lambda>t. ticket_id t \<noteq> tid) tickets"
    by (simp add: deleteTicket_def Let_def)
  have b: "\<And>t. ticket_id t \<noteq> tid \<Longrightarrow>
             count_list (filter (\<lambda>t. ticket_id t \<noteq> tid) tickets) t = count_list tickets t"
    by (induction tickets) auto
  from a b show ?thesis by simp
qed

theorem deleteTicket_frame_witness:
  "ticket_id exampleTicket \<noteq> ''ticket_2''
   \<and> count_list (snd (deleteTicket [exampleTicket \<lparr> ticket_id := ''ticket_2'' \<rparr>, exampleTicket]
                         ''ticket_2'')) exampleTicket = 1"
proof -
  have h: "ticket_id exampleTicket \<noteq> ''ticket_2''"
    by (simp add: exampleTicket_def)
  from deleteTicket_frame
         [of "''ticket_2''" "[exampleTicket \<lparr> ticket_id := ''ticket_2'' \<rparr>, exampleTicket]"] h
  have "count_list (snd (deleteTicket [exampleTicket \<lparr> ticket_id := ''ticket_2'' \<rparr>, exampleTicket]
                         ''ticket_2'')) exampleTicket
        = count_list [exampleTicket \<lparr> ticket_id := ''ticket_2'' \<rparr>, exampleTicket] exampleTicket"
    by blast
  also have "\<dots> = 1"
    by (simp add: exampleTicket_def)
  finally show ?thesis using h by simp
qed

section \<open>Statistics\<close>

lemma status_counts:
  "length (filter (\<lambda>t. ticket_status t = Open) ts)
   + length (filter (\<lambda>t. ticket_status t = InProgress) ts)
   + length (filter (\<lambda>t. ticket_status t = Waiting) ts)
   + length (filter (\<lambda>t. ticket_status t = Resolved) ts)
   + length (filter (\<lambda>t. ticket_status t = Closed) ts) = length ts"
proof (induction ts)
  case Nil
  show ?case by simp
next
  case (Cons t ts)
  then show ?case by (cases "ticket_status t") simp_all
qed

lemma priority_counts:
  "length (filter (\<lambda>t. ticket_priority t = Low) ts)
   + length (filter (\<lambda>t. ticket_priority t = Medium) ts)
   + length (filter (\<lambda>t. ticket_priority t = High) ts)
   + length (filter (\<lambda>t. ticket_priority t = Urgent) ts) = length ts"
proof (induction ts)
  case Nil
  show ?case by simp
next
  case (Cons t ts)
  then show ?case by (cases "ticket_priority t") simp_all
qed

lemma category_counts:
  "length (filter (\<lambda>t. ticket_category t = Technical) ts)
   + length (filter (\<lambda>t. ticket_category t = Billing) ts)
   + length (filter (\<lambda>t. ticket_category t = Account) ts)
   + length (filter (\<lambda>t. ticket_category t = Feature) ts)
   + length (filter (\<lambda>t. ticket_category t = Bug) ts)
   + length (filter (\<lambda>t. ticket_category t = Other) ts) = length ts"
proof (induction ts)
  case Nil
  show ?case by simp
next
  case (Cons t ts)
  then show ?case by (cases "ticket_category t") simp_all
qed

text \<open>
  Claim C5. In every state of the collection the total of \<^verbatim>\<open>getStatistics\<close> is the
  length of \<^verbatim>\<open>getAllTickets\<close>, and the five counts by status, the four by priority and
  the six by category each add up to the total.
\<close>

theorem getStatistics_totals:
  "stats_total (getStatistics tickets) = length (getAllTickets tickets)
   \<and> stats_open (getStatistics tickets) + stats_inProgress (getStatistics tickets)
       + stats_waiting (getStatistics tickets) + stats_resolved (getStatistics tickets)
       + stats_closed (getStatistics tickets) = stats_total (getStatistics tickets)
   \<and> count_low (stats_byPriority (getStatistics tickets))
       + count_medium (stats_byPriority (getStatistics tickets))
       + count_high (stats_byPriority (getStatistics tickets))
       + count_urgent (stats_byPriority (getStatistics tickets))
       = stats_total (getStatistics tickets)
   \<and> count_technical (stats_byCategory (getStatistics tickets))
       + count_billing (stats_byCategory (getStatistics tickets))
       + count_account (stats_byCategory (getStatistics tickets))
       + count_feature (stats_byCategory (getStatistics tickets))
       + count_bug (stats_byCategory (getStatistics tickets))
       + count_other (stats_byCategory (getStatistics tickets))
       = stats_total (getStatistics tickets)"
proof -
  have a: "stats_total (getStatistics tickets) = length (getAllTickets tickets)"
    by (simp add: getStatistics_def getAllTickets_def Let_def)
  have b: "stats_open (getStatistics tickets) + stats_inProgress (getStatistics tickets)
       + stats_waiting (getStatistics tickets) + stats_resolved (getStatistics tickets)
       + stats_closed (getStatistics tickets) = stats_total (getStatistics tickets)"
    using status_counts [of tickets] by (simp add: getStatistics_def Let_def)
  have c: "count_low (stats_byPriority (getStatistics tickets))
       + count_medium (stats_byPriority (getStatistics tickets))
       + count_high (stats_byPriority (getStatistics tickets))
       + count_urgent (stats_byPriority (getStatistics tickets))
       = stats_total (getStatistics tickets)"
    using priority_counts [of tickets] by (simp add: getStatistics_def Let_def)
  have d: "count_technical (stats_byCategory (getStatistics tickets))
       + count_billing (stats_byCategory (getStatistics tickets))
       + count_account (stats_byCategory (getStatistics tickets))
       + count_feature (stats_byCategory (getStatistics tickets))
       + count_bug (stats_byCategory (getStatistics tickets))
       + count_other (stats_byCategory (getStatistics tickets))
       = stats_total (getStatistics tickets)"
    using category_counts [of tickets] by (simp add: getStatistics_def Let_def)
  from a b c d show ?thesis by blast
qed

theorem getStatistics_totals_witness:
  "stats_total (getStatistics [exampleTicket, exampleTicket \<lparr> ticket_status := Closed \<rparr>]) = 2"
  using getStatistics_totals [of "[exampleTicket, exampleTicket \<lparr> ticket_status := Closed \<rparr>]"]
  by (simp add: getAllTickets_def)

section \<open>Adding a comment\<close>

text \<open>
  Claim C7. For an id that no ticket of the store has, \<^verbatim>\<open>addComment\<close> returns null and
  the array of tickets is unchanged, so no comment exists anywhere that did not before. For
  an id that is in the store it returns the new comment, which carries the id of the
  ticket, the fields of the draft and the clock value; the store differs only at the
  position of the first ticket with that id, where the comment is appended to the ticket's
  comments and \<^verbatim>\<open>updatedAt\<close> is the clock value.
\<close>

theorem addComment_absent_or_appended:
  "(getTicketById tickets tid = None \<longrightarrow>
      addComment now1 now2 now3 rnd tickets tid comment = (None, tickets))
   \<and> (\<forall>t. getTicketById tickets tid = Some t \<longrightarrow>
        (\<exists>c i. addComment now1 now2 now3 rnd tickets tid comment =
                 (Some c, tickets[i := t \<lparr> ticket_comments := ticket_comments t @ [c],
                                          ticket_updatedAt := now3 \<rparr>])
             \<and> i < length tickets \<and> tickets ! i = t
             \<and> (\<forall>j<i. ticket_id (tickets ! j) \<noteq> tid)
             \<and> comment_ticketId c = tid
             \<and> comment_author c = cdraft_author comment
             \<and> comment_content c = cdraft_content comment
             \<and> comment_isInternal c = cdraft_isInternal comment
             \<and> comment_timestamp c = now2
             \<and> getTicketById (snd (addComment now1 now2 now3 rnd tickets tid comment)) tid =
                 Some (t \<lparr> ticket_comments := ticket_comments t @ [c],
                           ticket_updatedAt := now3 \<rparr>)))"
proof (intro conjI allI impI)
  assume "getTicketById tickets tid = None"
  then show "addComment now1 now2 now3 rnd tickets tid comment = (None, tickets)"
    by (simp add: addComment_def)
next
  fix t
  assume t: "getTicketById tickets tid = Some t"
  define c where "c =
     \<lparr> comment_id = ''comment_'' @ numberToString now1 @ ''_'' @ rnd,
       comment_ticketId = tid,
       comment_author = cdraft_author comment,
       comment_content = cdraft_content comment,
       comment_isInternal = cdraft_isInternal comment,
       comment_timestamp = now2 \<rparr>"
  define t' where "t' = t \<lparr> ticket_comments := ticket_comments t @ [c], ticket_updatedAt := now3 \<rparr>"
  from t obtain i where i: "findIndex (\<lambda>t. ticket_id t = tid) tickets = Some i"
    and ti: "tickets ! i = t"
    unfolding getTicketById_def by (blast dest: find_Some_findIndex)
  from findIndex_Some [OF i] have il: "i < length tickets"
    and first: "\<forall>j<i. ticket_id (tickets ! j) \<noteq> tid"
    and tid: "ticket_id (tickets ! i) = tid"
    by auto
  have r: "addComment now1 now2 now3 rnd tickets tid comment = (Some c, tickets[i := t'])"
    using t i by (simp add: addComment_def Let_def c_def t'_def)
  have "ticket_id t' = tid"
    using tid ti by (simp add: t'_def)
  from find_list_update_first [OF i, of t'] this
  have g: "getTicketById (tickets[i := t']) tid = Some t'"
    by (simp add: getTicketById_def)
  have f: "comment_ticketId c = tid \<and> comment_author c = cdraft_author comment
           \<and> comment_content c = cdraft_content comment
           \<and> comment_isInternal c = cdraft_isInternal comment \<and> comment_timestamp c = now2"
    by (simp add: c_def)
  from r il ti first f g
  show "\<exists>c i. addComment now1 now2 now3 rnd tickets tid comment =
                 (Some c, tickets[i := t \<lparr> ticket_comments := ticket_comments t @ [c],
                                          ticket_updatedAt := now3 \<rparr>])
             \<and> i < length tickets \<and> tickets ! i = t
             \<and> (\<forall>j<i. ticket_id (tickets ! j) \<noteq> tid)
             \<and> comment_ticketId c = tid
             \<and> comment_author c = cdraft_author comment
             \<and> comment_content c = cdraft_content comment
             \<and> comment_isInternal c = cdraft_isInternal comment
             \<and> comment_timestamp c = now2
             \<and> getTicketById (snd (addComment now1 now2 now3 rnd tickets tid comment)) tid =
                 Some (t \<lparr> ticket_comments := ticket_comments t @ [c],
                           ticket_updatedAt := now3 \<rparr>)"
    unfolding t'_def by (intro exI [of _ c] exI [of _ i]) simp
qed

text \<open>Both cases on the store that holds the example ticket.\<close>

theorem addComment_absent_or_appended_witness:
  "getTicketById [exampleTicket] ''ticket_2'' = None
   \<and> addComment 200 201 202 ''k3x'' [exampleTicket] ''ticket_2'' exampleComment
       = (None, [exampleTicket])
   \<and> getTicketById [exampleTicket] ''ticket_1'' = Some exampleTicket
   \<and> (\<exists>c. getTicketById
             (snd (addComment 200 201 202 ''k3x'' [exampleTicket] ''ticket_1'' exampleComment))
             ''ticket_1''
           = Some (exampleTicket \<lparr> ticket_comments := [c], ticket_updatedAt := 202 \<rparr>)
         \<and> comment_content c = ''Looking into it'')"
proof -
  have n: "getTicketById [exampleTicket] ''ticket_2'' = None"
    by (simp add: getTicketById_def exampleTicket_def)
  have s: "getTicketById [exampleTicket] ''ticket_1'' = Some exampleTicket"
    by (simp add: getTicketById_def exampleTicket_def)
  have e: "ticket_comments exampleTicket = []"
    by (simp add: exampleTicket_def)
  have d: "cdraft_content exampleComment = ''Looking into it''"
    by (simp add: exampleComment_def)
  from addComment_absent_or_appended
         [of "[exampleTicket]" "''ticket_2''" 200 201 202 "''k3x''" exampleComment] n
  have a: "addComment 200 201 202 ''k3x'' [exampleTicket] ''ticket_2'' exampleComment
             = (None, [exampleTicket])"
    by blast
  from addComment_absent_or_appended
         [of "[exampleTicket]" "''ticket_1''" 200 201 202 "''k3x''" exampleComment] s
  obtain c where
    "getTicketById
       (snd (addComment 200 201 202 ''k3x'' [exampleTicket] ''ticket_1'' exampleComment))
       ''ticket_1''
     = Some (exampleTicket \<lparr> ticket_comments := ticket_comments exampleTicket @ [c],
                             ticket_updatedAt := 202 \<rparr>)"
    and "comment_content c = cdraft_content exampleComment"
    by blast
  with e d n s a show ?thesis by auto
qed

section \<open>Creating a ticket\<close>

text \<open>
  \<^verbatim>\<open>createTicket\<close> has no check of the draft and no failing branch. A draft whose title,
  description and author are all empty is stored like any other: the empty collection
  has one ticket afterwards.
\<close>

theorem createTicket_empty_fields_counterexample:
  "length (snd (createTicket 200 201 202 ''k3x'' []
             (exampleDraft \<lparr> draft_title := [], draft_description := [],
                             draft_author := [] \<rparr>))) = 1"
  by (simp add: createTicket_def Let_def)

text \<open>
  Claim C2, in the form that holds of the source. For every draft, whether or not its title, description or author is
  the empty string, \<^verbatim>\<open>createTicket\<close> returns a new ticket that carries the fields of the
  draft, the clock values as \<^verbatim>\<open>createdAt\<close> and \<^verbatim>\<open>updatedAt\<close> and no comments, and the
  collection is the old one with that ticket appended. The required fields are enforced
  by the form of the presentation layer, not by the store.
\<close>

theorem createTicket_appends:
  "\<exists>t. createTicket now1 now2 now3 rnd tickets draft = (t, tickets @ [t])
       \<and> ticket_title t = draft_title draft
       \<and> ticket_description t = draft_description draft
       \<and> ticket_author t = draft_author draft
       \<and> ticket_category t = draft_category draft
       \<and> ticket_priority t = draft_priority draft
       \<and> ticket_status t = draft_status draft
       \<and> ticket_createdAt t = now2
       \<and> ticket_updatedAt t = now3
       \<and> ticket_comments t = []"
  by (simp add: createTicket_def Let_def)

theorem createTicket_appends_witness:
  "\<exists>t. createTicket 200 201 202 ''k3x'' [exampleTicket] (exampleDraft \<lparr> draft_title := [] \<rparr>)
         = (t, [exampleTicket, t])
       \<and> ticket_title t = []"
  using createTicket_appends
          [of 200 201 202 "''k3x''" "[exampleTicket]" "exampleDraft \<lparr> draft_title := [] \<rparr>"]
  by auto

section \<open>Notifications\<close>

text \<open>
  The list of listeners stands for a \<^verbatim>\<open>Set\<close>: it has no element twice. A new controller
  has the property, and \<^verbatim>\<open>subscribe\<close>, the handle it returns and every call keep it.
\<close>

lemma count_list_distinct: "distinct xs \<Longrightarrow> x \<in> set xs \<Longrightarrow> count_list xs x = 1"
  by (induction xs) auto

lemma filter_removeAll:
  "filter (\<lambda>x. x \<noteq> l) (removeAll l xs) = filter (\<lambda>x. x \<noteq> l) xs"
  by (induction xs) auto

lemma setAdd_distinct: "distinct xs \<Longrightarrow> distinct (setAdd x xs)"
  by (simp add: setAdd_def)

lemma setAdd_idem: "setAdd x (setAdd x xs) = setAdd x xs"
  by (simp add: setAdd_def)

lemma newController_distinct: "distinct (ctrl_listeners (newController model))"
  by (simp add: newController_def)

lemma subscribe_distinct:
  "distinct (ctrl_listeners c) \<Longrightarrow> distinct (ctrl_listeners (snd (subscribe l c)))"
  by (simp add: subscribe_def setAdd_distinct)

lemma unsubscribe_distinct:
  "distinct (ctrl_listeners c') \<Longrightarrow> distinct (ctrl_listeners (fst (subscribe l c) c'))"
  by (simp add: subscribe_def setDelete_def distinct_removeAll)

lemma exec_listeners: "ctrl_listeners (exec x c) = ctrl_listeners c"
  by (cases x)
     (simp_all add: ctrl_createTicket_def ctrl_updateTicket_def ctrl_deleteTicket_def
        ctrl_changeTicketStatus_def ctrl_addComment_def notify_def Let_def
        split: prod.splits)

lemma exec_notified:
  "ctrl_notified (exec x c) =
     ctrl_notified c @ (if notifying x c then ctrl_listeners c else [])"
  by (cases x)
     (simp_all add: ctrl_createTicket_def ctrl_updateTicket_def ctrl_deleteTicket_def
        ctrl_changeTicketStatus_def ctrl_addComment_def notify_def Let_def
        split: prod.splits)

text \<open>
  Deleting an id that is not in the store leaves the model as it was, and the listener is
  called all the same: a notification does not need a change of state.
\<close>

theorem notify_without_change_counterexample:
  "ctrl_model (ctrl_deleteTicket ''ticket_2'' (snd (subscribe 0 (newController [exampleTicket]))))
     = ctrl_model (snd (subscribe 0 (newController [exampleTicket])))
   \<and> count_list
       (ctrl_notified
          (ctrl_deleteTicket ''ticket_2'' (snd (subscribe 0 (newController [exampleTicket]))))) 0
     = 1"
  by (simp add: ctrl_deleteTicket_def deleteTicket_def notify_def subscribe_def
        newController_def setAdd_def exampleTicket_def Let_def)

text \<open>
  Claim C4, in the form that holds of the source. Over every sequence of controller calls a registered listener is
  called exactly once for each call of \<^verbatim>\<open>createTicket\<close>, \<^verbatim>\<open>updateTicket\<close>,
  \<^verbatim>\<open>deleteTicket\<close> and \<^verbatim>\<open>addComment\<close>, whether or not the call changed the collection,
  once for each \<^verbatim>\<open>changeTicketStatus\<close> that succeeds, and not at all for a
  \<^verbatim>\<open>changeTicketStatus\<close> that fails or for a read-only query.
\<close>

theorem notified_once_per_notifying_call:
  assumes "distinct (ctrl_listeners c)" and "l \<in> set (ctrl_listeners c)"
  shows "count_list (ctrl_notified (run calls c)) l
           = count_list (ctrl_notified c) l + expectedNotifications calls c"
  using assms
proof (induction calls arbitrary: c)
  case Nil
  show ?case by simp
next
  case (Cons x calls)
  have d: "distinct (ctrl_listeners (exec x c))" and m: "l \<in> set (ctrl_listeners (exec x c))"
    using Cons.prems by (simp_all add: exec_listeners)
  have one: "count_list (ctrl_listeners c) l = 1"
    using Cons.prems by (rule count_list_distinct)
  have "count_list (ctrl_notified (exec x c)) l
          = count_list (ctrl_notified c) l + (if notifying x c then 1 else 0)"
    by (simp add: exec_notified one)
  with Cons.IH [OF d m] show ?case by simp
qed

text \<open>
  The example calls: a creation, a refused status change, a query, a status change that
  succeeds, the deletion of an id that is not there, and a query. The listener is called
  three times.
\<close>

theorem notified_once_per_notifying_call_witness:
  "distinct (ctrl_listeners (snd (subscribe 0 (newController [exampleTicket]))))
   \<and> 0 \<in> set (ctrl_listeners (snd (subscribe 0 (newController [exampleTicket]))))
   \<and> count_list
       (ctrl_notified (run exampleCalls (snd (subscribe 0 (newController [exampleTicket]))))) 0
     = 3"
proof -
  have c0: "snd (subscribe 0 (newController [exampleTicket]))
              = \<lparr> ctrl_model = [exampleTicket], ctrl_listeners = [0], ctrl_notified = [] \<rparr>"
    by (simp add: subscribe_def newController_def setAdd_def)
  have d: "distinct (ctrl_listeners (snd (subscribe 0 (newController [exampleTicket]))))"
    by (simp add: c0)
  have m: "0 \<in> set (ctrl_listeners (snd (subscribe 0 (newController [exampleTicket]))))"
    by (simp add: c0)
  have e: "expectedNotifications exampleCalls
             (snd (subscribe 0 (newController [exampleTicket]))) = 3"
    unfolding c0 exampleCalls_def
    by (simp add: ctrl_createTicket_def ctrl_changeTicketStatus_def ctrl_deleteTicket_def
          createTicket_def changeTicketStatus_def updateTicket_def deleteTicket_def
          getTicketById_def notify_def spread_def statusOnly_def truthy_def
          exampleTicket_def exampleDraft_def Let_def)
  from notified_once_per_notifying_call [OF d m, of exampleCalls] e c0 d m
  show ?thesis by simp
qed

section \<open>Subscribing the same listener twice\<close>

text \<open>
  After two \<^verbatim>\<open>subscribe\<close> calls with the same listener and one creation of a ticket the
  listener has been called once, and the handle of the first call leaves no registration
  of it behind.
\<close>

theorem subscribe_twice_counterexample:
  "count_list
     (ctrl_notified
        (ctrl_createTicket 200 201 202 ''k3x'' exampleDraft
           (snd (subscribe 7 (snd (subscribe 7 (newController [])))))))
     7 = 1
   \<and> ctrl_listeners
       (fst (subscribe 7 (newController []))
          (snd (subscribe 7 (snd (subscribe 7 (newController [])))))) = []"
  by (simp add: ctrl_createTicket_def notify_def subscribe_def newController_def
        setAdd_def setDelete_def)

text \<open>
  Claim C6, in the form that holds of the source. The listeners are a \<^verbatim>\<open>Set\<close>: a second \<^verbatim>\<open>subscribe\<close> with the same
  callback changes nothing, the callback is registered once, and after the two calls and
  one mutation that notifies it has been called once more than before. The handle that
  either call returns removes the callback altogether, in whatever state it is used, and
  removes no other listener.
\<close>

theorem subscribe_deduplicates:
  assumes "distinct (ctrl_listeners c)"
  shows "snd (subscribe l (snd (subscribe l c))) = snd (subscribe l c)
       \<and> count_list (ctrl_listeners (snd (subscribe l (snd (subscribe l c))))) l = 1
       \<and> count_list
           (ctrl_notified
              (ctrl_createTicket now1 now2 now3 rnd draft
                 (snd (subscribe l (snd (subscribe l c)))))) l
         = count_list (ctrl_notified c) l + 1
       \<and> l \<notin> set (ctrl_listeners (fst (subscribe l c) c'))
       \<and> l \<notin> set (ctrl_listeners (fst (subscribe l (snd (subscribe l c))) c'))
       \<and> filter (\<lambda>x. x \<noteq> l) (ctrl_listeners (fst (subscribe l c) c'))
           = filter (\<lambda>x. x \<noteq> l) (ctrl_listeners c')"
proof -
  have a: "snd (subscribe l (snd (subscribe l c))) = snd (subscribe l c)"
    by (simp add: subscribe_def setAdd_idem)
  have d: "distinct (setAdd l (ctrl_listeners c))"
    using assms by (rule setAdd_distinct)
  have m: "l \<in> set (setAdd l (ctrl_listeners c))"
    by (simp add: setAdd_def)
  have one: "count_list (setAdd l (ctrl_listeners c)) l = 1"
    using d m by (rule count_list_distinct)
  have b: "count_list (ctrl_listeners (snd (subscribe l c))) l = 1"
    using one by (simp add: subscribe_def)
  have n: "count_list
           (ctrl_notified (ctrl_createTicket now1 now2 now3 rnd draft (snd (subscribe l c)))) l
         = count_list (ctrl_notified c) l + 1"
    using one by (simp add: ctrl_createTicket_def notify_def subscribe_def)
  have h: "l \<notin> set (ctrl_listeners (fst (subscribe l c) c'))"
    by (simp add: subscribe_def setDelete_def)
  have h2: "l \<notin> set (ctrl_listeners (fst (subscribe l (snd (subscribe l c))) c'))"
    by (simp add: subscribe_def setDelete_def)
  have f: "filter (\<lambda>x. x \<noteq> l) (ctrl_listeners (fst (subscribe l c) c'))
           = filter (\<lambda>x. x \<noteq> l) (ctrl_listeners c')"
    by (simp add: subscribe_def setDelete_def filter_removeAll)
  from a b n h h2 f show ?thesis by simp
qed

theorem subscribe_deduplicates_witness:
  "distinct (ctrl_listeners (newController [exampleTicket]))
   \<and> count_list
       (ctrl_notified
          (ctrl_createTicket 200 201 202 ''k3x'' exampleDraft
             (snd (subscribe 7 (snd (subscribe 7 (newController [exampleTicket]))))))) 7
     = 1"
proof -
  have d: "distinct (ctrl_listeners (newController [exampleTicket]))"
    by (simp add: newController_def)
  have z: "count_list (ctrl_notified (newController [exampleTicket])) 7 = 0"
    by (simp add: newController_def)
  from subscribe_deduplicates
         [OF d, of 7 200 201 202 "''k3x''" exampleDraft "newController [exampleTicket]"]
  have "count_list
       (ctrl_notified
          (ctrl_createTicket 200 201 202 ''k3x'' exampleDraft
             (snd (subscribe 7 (snd (subscribe 7 (newController [exampleTicket]))))))) 7
     = count_list (ctrl_notified (newController [exampleTicket])) 7 + 1"
    by blast
  with z d show ?thesis by simp
qed

end
